theory Spec2Isabelle
  imports Complex_Main "HOL-Library.Multiset"
begin

section \<open>Data model of the editor page (src/app/page.tsx)\<close>

text \<open>
  A JavaScript \<open>number\<close> that holds a time in seconds is a finite IEEE 754 double,
  modelled by the real number it denotes: comparison, copying, sorting and membership
  behave as in the source. \<open>Infinity\<close>, \<open>NaN\<close> and the negative zero have no value
  in the model. Array indices and loop counters are \<^typ>\<open>nat\<close> or \<^typ>\<open>int\<close>.
\<close>

type_synonym number = real

text \<open>
  The operators \<open>/\<close>, \<open>*\<close> and \<open>-\<close> of the source give the exact result rounded
  to the nearest double, ties to the even significand: 53 significant bits, and steps
  of \<open>2^-1074\<close> below \<open>2^-1022\<close>. A result beyond the largest double, which the
  source turns into \<open>Infinity\<close>, is rounded here as if the exponents had no upper end.
  The only divisor of the source is \<open>count + 1\<close> with \<open>count > 0\<close>, so a division by
  zero does not occur.
\<close>

definition roundHalfEven :: "real \<Rightarrow> int" where
  "roundHalfEven y =
     (let f = \<lfloor>y\<rfloor>; r = y - of_int f
      in if r < 1 / 2 then f
         else if 1 / 2 < r then f + 1
         else if even f then f else f + 1)"

definition round64 :: "real \<Rightarrow> number" where
  "round64 x =
     (if x = 0 then 0
      else
        (let e = max \<lfloor>log 2 \<bar>x\<bar>\<rfloor> (- 1022) - 52;
             ulp = 2 powr of_int e
         in ulp * of_int (roundHalfEven (x / ulp))))"

definition js_div :: "number \<Rightarrow> number \<Rightarrow> number" where
  "js_div x y = round64 (x / y)"

definition js_mul :: "number \<Rightarrow> number \<Rightarrow> number" where
  "js_mul x y = round64 (x * y)"

definition js_sub :: "number \<Rightarrow> number \<Rightarrow> number" where
  "js_sub x y = round64 (x - y)"

text \<open>The browser \<open>File\<close> object: only its name, size and MIME type are read.\<close>

datatype File = File (file_name: string) (file_size: nat) (file_type: string)

text \<open>\<open>type AudioChunk = { id, startTime, endTime, duration }\<close>\<close>

record AudioChunk =
  id_chunk :: string
  startTime :: number
  endTime :: number
  duration_chunk :: number

text \<open>\<open>type AudioFile = { id, file, fileName, storageKey, storageUrl, duration, url,
  breakpoints, uploading, uploaded, chunks, currentTime? }\<close>\<close>

record AudioFile =
  id_file :: string
  file_blob :: File
  fileName :: string
  storageKey :: string
  storageUrl :: string
  duration :: number
  url :: string
  breakpoints :: "number list"
  uploading :: bool
  uploaded :: bool
  chunks :: "AudioChunk list"
  currentTime :: "number option"

text \<open>The entry \<open>handleFileUpload\<close> creates for a selected file (lines 56-68).\<close>

definition newTrack :: "string \<Rightarrow> File \<Rightarrow> string \<Rightarrow> number \<Rightarrow> AudioFile" where
  "newTrack id' file' url' duration' =
     \<lparr> id_file = id',
       file_blob = file',
       fileName = file_name file',
       storageKey = [],
       storageUrl = [],
       duration = duration',
       url = url',
       breakpoints = [],
       uploading = False,
       uploaded = False,
       chunks = [],
       currentTime = None \<rparr>"

section \<open>Chunk derivation at save time (saveAudioFile, lines 164-179)\<close>

text \<open>Template literals print a loop counter in decimal.\<close>

fun showNat :: "nat \<Rightarrow> string" where
  "showNat n =
     (if n < 10 then [''0123456789'' ! n]
      else showNat (n div 10) @ [''0123456789'' ! (n mod 10)])"

declare showNat.simps [simp del]

text \<open>\<open>const breakpoints = [0, ...audioFile.breakpoints, audioFile.duration]\<close>\<close>

definition boundaries :: "number list \<Rightarrow> number \<Rightarrow> number list" where
  "boundaries bps d = [0] @ bps @ [d]"

text \<open>The object pushed by one iteration of the loop.\<close>

definition mkChunk :: "string \<Rightarrow> number list \<Rightarrow> nat \<Rightarrow> AudioChunk" where
  "mkChunk fid bs i =
     (let startTime = bs ! i;
          endTime = bs ! (i + 1)
      in \<lparr> id_chunk = ''chunk-'' @ fid @ ''-'' @ showNat i,
           startTime = startTime,
           endTime = endTime,
           duration_chunk = js_sub endTime startTime \<rparr>)"

text \<open>
  \<open>for (let i = 0; i < breakpoints.length - 1; i++) chunks.push({...})\<close>.
  Both reads are in range whenever the loop body runs.
\<close>

function chunkLoop :: "string \<Rightarrow> number list \<Rightarrow> nat \<Rightarrow> AudioChunk list \<Rightarrow> AudioChunk list" where
  "chunkLoop fid bs i acc =
     (if int i < int (length bs) - 1 then chunkLoop fid bs (i + 1) (acc @ [mkChunk fid bs i])
      else acc)"
  by pat_completeness auto
termination
  by (relation "measure (\<lambda>(fid, bs, i, acc). length bs - i)") auto

declare chunkLoop.simps [simp del]

definition computeChunks :: "AudioFile \<Rightarrow> AudioChunk list" where
  "computeChunks audioFile =
     chunkLoop (id_file audioFile) (boundaries (breakpoints audioFile) (duration audioFile)) 0 []"

text \<open>The boundary sequence as the specification words it: \<open>sort(unique({0} \<union> B \<union> {d}))\<close>.\<close>

definition spec_boundaries :: "number list \<Rightarrow> number \<Rightarrow> number list" where
  "spec_boundaries bps d = sort (remdups ([0] @ bps @ [d]))"

section \<open>React state of the page component\<close>

text \<open>
  The state cells of \<open>VideoEditor\<close> that the handlers below read or write
  (\<open>useState\<close>). \<open>debugData\<close> and the console output are display only and never
  read back; they are left out. A handler is a closure created by one render: the
  \<open>audioFiles\<close> and \<open>draggedItem\<close> it names are the values of that render (the
  parameter \<open>snap\<close>), while an updater passed to \<open>setAudioFiles\<close> receives the live
  value \<open>prev\<close>.
\<close>

record VideoEditor =
  audioFiles :: "AudioFile list"
  isSubmitting :: bool
  draggedItem :: "nat option"

definition setAudioFiles :: "(AudioFile list \<Rightarrow> AudioFile list) \<Rightarrow> VideoEditor \<Rightarrow> VideoEditor" where
  "setAudioFiles updater s = s\<lparr>audioFiles := updater (audioFiles s)\<rparr>"

section \<open>Breakpoint operations (lines 125-152 and 329-358)\<close>

definition addBreakpoint :: "string \<Rightarrow> number \<Rightarrow> VideoEditor \<Rightarrow> VideoEditor" where
  "addBreakpoint fileId time =
     setAudioFiles (\<lambda>prev.
       map (\<lambda>file.
         if id_file file = fileId then
           (if time \<notin> set (breakpoints file) then
              (let newBreakpoints = sort (breakpoints file @ [time])
               in file\<lparr>breakpoints := newBreakpoints\<rparr>)
            else file)
         else file) prev)"

definition removeBreakpoint :: "string \<Rightarrow> number \<Rightarrow> VideoEditor \<Rightarrow> VideoEditor" where
  "removeBreakpoint fileId time =
     setAudioFiles (\<lambda>prev.
       map (\<lambda>file.
         if id_file file = fileId then
           file\<lparr>breakpoints := filter (\<lambda>bp. bp \<noteq> time) (breakpoints file)\<rparr>
         else file) prev)"

text \<open>\<open>for (let i = 1; i <= count; i++) newBreakpoints.push(interval * i)\<close>\<close>

function evenLoop :: "number \<Rightarrow> int \<Rightarrow> int \<Rightarrow> number list \<Rightarrow> number list" where
  "evenLoop interval count' i newBreakpoints =
     (if i \<le> count' then
        (let time = js_mul interval (of_int i)
         in evenLoop interval count' (i + 1) (newBreakpoints @ [time]))
      else newBreakpoints)"
  by pat_completeness auto
termination
  by (relation "measure (\<lambda>(interval, count', i, acc). nat (count' + 1 - i))") auto

declare evenLoop.simps [simp del]

text \<open>
  \<open>count\<close> comes from \<open>Number.parseInt\<close> guarded by \<open>!isNaN\<close>, hence an integer.
\<close>

definition addEvenBreakpoints :: "VideoEditor \<Rightarrow> string \<Rightarrow> int \<Rightarrow> VideoEditor \<Rightarrow> VideoEditor" where
  "addEvenBreakpoints snap fileId count' s =
     (if count' \<le> 0 then s
      else case find (\<lambda>file. id_file file = fileId) (audioFiles snap) of
        None \<Rightarrow> s
      | Some audioFile \<Rightarrow>
          (let duration = duration audioFile;
               interval = js_div duration (of_int (count' + 1));
               s1 = setAudioFiles (\<lambda>prev.
                      map (\<lambda>file. if id_file file = fileId then file\<lparr>breakpoints := []\<rparr> else file) prev) s;
               newBreakpoints = evenLoop interval count' 1 []
           in setAudioFiles (\<lambda>prev.
                map (\<lambda>file. if id_file file = fileId then file\<lparr>breakpoints := newBreakpoints\<rparr> else file)
                  prev) s1))"

subsection \<open>The track component's own helper (src/components/audio-track.tsx, lines 122-138)\<close>

text \<open>
  The component only calls back into the page: the model returns the callbacks it
  invokes, in order.
\<close>

datatype callback = OnRemoveBreakpoint number | OnAddBreakpoint number

function trackEvenLoop :: "number \<Rightarrow> int \<Rightarrow> int \<Rightarrow> callback list \<Rightarrow> callback list" where
  "trackEvenLoop interval count' i calls =
     (if i \<le> count' then
        (let time = js_mul interval (of_int i)
         in trackEvenLoop interval count' (i + 1) (calls @ [OnAddBreakpoint time]))
      else calls)"
  by pat_completeness auto
termination
  by (relation "measure (\<lambda>(interval, count', i, acc). nat (count' + 1 - i))") auto

declare trackEvenLoop.simps [simp del]

definition track_addEvenBreakpoints :: "bool \<Rightarrow> bool \<Rightarrow> AudioFile \<Rightarrow> int \<Rightarrow> callback list" where
  "track_addEvenBreakpoints hasAudioRef disabled audio count' =
     (if \<not> hasAudioRef \<or> disabled \<or> count' \<le> 0 then []
      else
        (let duration = duration audio;
             interval = js_div duration (of_int (count' + 1));
             calls = map OnRemoveBreakpoint (breakpoints audio)
         in trackEvenLoop interval count' 1 calls))"

section \<open>Drag reordering (lines 91-116)\<close>

text \<open>
  \<open>Array.prototype.splice(start, deleteCount, ...items)\<close> for a non-negative
  \<open>start\<close>; a \<open>start\<close> beyond the end is clamped to the length, which is what
  \<^const>\<open>take\<close> and \<^const>\<open>drop\<close> do.
\<close>

definition splice :: "nat \<Rightarrow> nat \<Rightarrow> 'a list \<Rightarrow> 'a list \<Rightarrow> 'a list" where
  "splice start deleteCount items xs = take start xs @ items @ drop (start + deleteCount) xs"

definition handleDragStart :: "nat \<Rightarrow> VideoEditor \<Rightarrow> VideoEditor" where
  "handleDragStart index s = s\<lparr>draggedItem := Some index\<rparr>"

text \<open>
  Reading \<open>newAudioFiles[draggedItem]\<close> past the end gives \<open>undefined\<close>, which the
  second \<open>splice\<close> would store in the list; that result is no \<open>AudioFile[]\<close> and is
  \<^const>\<open>None\<close> here.
\<close>

definition handleDragOver :: "VideoEditor \<Rightarrow> nat \<Rightarrow> VideoEditor \<Rightarrow> VideoEditor option" where
  "handleDragOver snap index s =
     (case draggedItem snap of
        None \<Rightarrow> Some s
      | Some dragged \<Rightarrow>
          if dragged = index then Some s
          else if length (audioFiles snap) \<le> dragged then None
          else
            (let newAudioFiles = audioFiles snap;
                 draggedItemContent = newAudioFiles ! dragged;
                 newAudioFiles = splice dragged 1 [] newAudioFiles;
                 newAudioFiles = splice index 0 [draggedItemContent] newAudioFiles
             in Some (s\<lparr>audioFiles := newAudioFiles, draggedItem := Some index\<rparr>)))"

definition handleDragEnd :: "VideoEditor \<Rightarrow> VideoEditor" where
  "handleDragEnd s = s\<lparr>draggedItem := None\<rparr>"

section \<open>Saving a track and submitting the project (lines 154-316)\<close>

text \<open>
  An awaited promise either rejects with an \<open>Error\<close> (its message) or resolves.
\<close>

datatype 'a promise = Rejects string | Resolves 'a

text \<open>The JSON body answered by \<open>/api/upload\<close>, as far as the page reads it.\<close>

datatype UploadResult =
  UploadResult (res_success: bool) (res_key: "string option") (res_url: "string option")
    (res_error: "string option")

text \<open>\<open>fetch\<close> resolves to a response whose \<open>json()\<close> is awaited in turn.\<close>

type_synonym upload_response = "UploadResult promise promise"

text \<open>The \<open>breakpoints\<close> form field before \<open>JSON.stringify\<close>.\<close>

datatype UploadMeta =
  UploadMeta (meta_fileName: string) (meta_duration: number) (meta_breakpoints: "number list")

datatype BreakpointEntry =
  BreakpointEntry (supabase_url: string) (entry_breakpoints: "number list")

datatype RequestPayload =
  RequestPayload (payload_data: "BreakpointEntry list") (combine_videos: bool) (output_dir: string)

text \<open>
  The answer of the processing API: \<open>response.ok\<close>, \<open>response.statusText\<close> and the
  awaited \<open>response.json()\<close>, of which only \<open>detail\<close> is read.
\<close>

datatype ApiResponse =
  ApiResponse (resp_ok: bool) (resp_statusText: string) (resp_json: "string option promise")

type_synonym process_response = "ApiResponse promise"

text \<open>What the page does to the outside: network requests and notifications.\<close>

datatype effect =
    FetchUpload File string UploadMeta
  | FetchProcess RequestPayload
  | Toast string string bool

type_synonym run = "VideoEditor \<times> effect list"

text \<open>\<open>x || ""\<close> on an optional string, and \<open>`${x}`\<close> on an optional string.\<close>

definition orEmpty :: "string option \<Rightarrow> string" where
  "orEmpty x = (case x of None \<Rightarrow> [] | Some v \<Rightarrow> v)"

definition showOpt :: "string option \<Rightarrow> string" where
  "showOpt x = (case x of None \<Rightarrow> ''undefined'' | Some v \<Rightarrow> v)"

text \<open>The \<open>catch\<close> block of \<open>saveAudioFile\<close>.\<close>

definition saveFailed :: "string \<Rightarrow> AudioFile \<Rightarrow> string \<Rightarrow> run \<Rightarrow> run" where
  "saveFailed fileId audioFile message r =
     (setAudioFiles (\<lambda>prev.
        map (\<lambda>file. if id_file file = fileId then file\<lparr>uploading := False\<rparr> else file) prev) (fst r),
      snd r @ [Toast ''Upload failed''
                 (''Failed to upload '' @ fileName audioFile @ ''. '' @ message) True])"

text \<open>\<open>saveAudioFile\<close> up to its first suspension, \<open>await fetch('/api/upload', ...)\<close>.\<close>

definition saveAudioFile_begin :: "VideoEditor \<Rightarrow> string \<Rightarrow> run \<Rightarrow> run" where
  "saveAudioFile_begin snap fileId r =
     (case find (\<lambda>file. id_file file = fileId) (audioFiles snap) of
        None \<Rightarrow> r
      | Some audioFile \<Rightarrow>
          (setAudioFiles (\<lambda>prev.
             map (\<lambda>file. if id_file file = fileId then file\<lparr>uploading := True\<rparr> else file) prev) (fst r),
           snd r @ [FetchUpload (file_blob audioFile) (fileName audioFile)
                      (UploadMeta (fileName audioFile) (duration audioFile) (breakpoints audioFile))]))"

text \<open>
  Lines 205-235, the rest of the \<open>try\<close> body up to the branch on \<open>result.success\<close>:
  \<^term>\<open>Inl message\<close> is an error thrown there (by \<open>fetch\<close>, by \<open>response.json()\<close>
  or by the explicit \<open>throw\<close>), \<^term>\<open>Inr result\<close> a successful answer.
\<close>

definition awaitUpload :: "upload_response \<Rightarrow> string + UploadResult" where
  "awaitUpload response =
     (case response of
        Rejects message \<Rightarrow> Inl message
      | Resolves body \<Rightarrow>
          (case body of
             Rejects message \<Rightarrow> Inl message
           | Resolves result \<Rightarrow>
               if res_success result then Inr result
               else Inl (''Failed to upload file: '' @ showOpt (res_error result))))"

text \<open>\<open>saveAudioFile\<close> from the answer of the upload request to its end.\<close>

definition saveAudioFile_resume :: "VideoEditor \<Rightarrow> string \<Rightarrow> upload_response \<Rightarrow> run \<Rightarrow> run" where
  "saveAudioFile_resume snap fileId response r =
     (case find (\<lambda>file. id_file file = fileId) (audioFiles snap) of
        None \<Rightarrow> r
      | Some audioFile \<Rightarrow>
          (let chunks = computeChunks audioFile
           in case awaitUpload response of
                Inr result \<Rightarrow>
                  (setAudioFiles (\<lambda>prev.
                     map (\<lambda>file.
                       if id_file file = fileId then
                         file\<lparr>uploading := False,
                              uploaded := True,
                              storageKey := orEmpty (res_key result),
                              storageUrl := orEmpty (res_url result),
                              chunks := chunks\<rparr>
                       else file) prev) (fst r),
                   snd r @ [Toast ''File uploaded successfully''
                              (fileName audioFile @ '' has been uploaded with ''
                                 @ showNat (length (breakpoints audioFile)) @ '' breakpoints.'')
                              False])
              | Inl message \<Rightarrow> saveFailed fileId audioFile message r))"

definition saveAudioFile :: "VideoEditor \<Rightarrow> string \<Rightarrow> upload_response \<Rightarrow> run \<Rightarrow> run" where
  "saveAudioFile snap fileId response r =
     saveAudioFile_resume snap fileId response (saveAudioFile_begin snap fileId r)"

text \<open>
  \<open>await Promise.all(unprocessedFiles.map(file => saveAudioFile(file.id)))\<close>: every
  call runs to its \<open>fetch\<close> when it is made, and the calls resume as their answers
  arrive, taken here in list order. \<open>saveAudioFile\<close> catches its own errors, so the
  combined promise never rejects.
\<close>

definition promiseAll_save :: "VideoEditor \<Rightarrow> string list \<Rightarrow> (string \<Rightarrow> upload_response) \<Rightarrow> run \<Rightarrow> run" where
  "promiseAll_save snap fileIds uploads r =
     fold (\<lambda>fileId. saveAudioFile_resume snap fileId (uploads fileId)) fileIds
       (fold (saveAudioFile_begin snap) fileIds r)"

text \<open>The \<open>catch\<close> block of \<open>handleSubmit\<close>.\<close>

definition submitFailed :: "string \<Rightarrow> run \<Rightarrow> run" where
  "submitFailed message r = (fst r, snd r @ [Toast ''Error submitting project'' message True])"

definition handleSubmit ::
    "VideoEditor \<Rightarrow> (string \<Rightarrow> upload_response) \<Rightarrow> process_response \<Rightarrow> run \<Rightarrow> run" where
  "handleSubmit snap uploads process r =
     (let r0 = ((fst r)\<lparr>isSubmitting := True\<rparr>, snd r);
          stillUploading = list_ex uploading (audioFiles snap);
          r3 =
            (if stillUploading then
               submitFailed ''Please wait for all files to finish uploading'' r0
             else
               (let unprocessedFiles = filter (\<lambda>file. \<not> uploaded file) (audioFiles snap);
                    r1 = (if length unprocessedFiles > 0
                          then promiseAll_save snap (map id_file unprocessedFiles) uploads r0
                          else r0);
                    audioBreakpoints =
                      map (\<lambda>file. BreakpointEntry (storageUrl file) (breakpoints file)) (audioFiles snap);
                    requestPayload = RequestPayload audioBreakpoints False ''output_videos'';
                    r2 = (fst r1, snd r1 @ [FetchProcess requestPayload])
                in case process of
                     Rejects message \<Rightarrow> submitFailed message r2
                   | Resolves response \<Rightarrow>
                       if \<not> resp_ok response then
                         (case resp_json response of
                            Rejects message \<Rightarrow> submitFailed message r2
                          | Resolves detail \<Rightarrow>
                              submitFailed
                                (''API error: '' @
                                   (if orEmpty detail \<noteq> [] then orEmpty detail
                                    else resp_statusText response)) r2)
                       else
                         (case resp_json response of
                            Rejects message \<Rightarrow> submitFailed message r2
                          | Resolves result \<Rightarrow>
                              (fst r2,
                               snd r2 @ [Toast ''Project submitted successfully''
                                 ''Your audio files and breakpoints have been sent for processing.''
                                 False]))))
      in ((fst r3)\<lparr>isSubmitting := False\<rparr>, snd r3))"



section \<open>The upload route (src/app/api/upload/route.ts)\<close>

text \<open>
  A storage call of the Supabase client resolves to \<open>{ data, error }\<close>: \<^term>\<open>Inl e\<close>
  is an \<open>error\<close> with message \<open>e\<close>, \<^term>\<open>Inr d\<close> the \<open>data\<close>; the call may also
  reject. Everything the handler gets from outside is a field of \<open>UploadEnv\<close>.
\<close>

datatype FormFields = FormFields (form_file: "File option") (form_breakpoints: "string option")

record UploadEnv =
  supabaseUrl :: string
  supabaseAnonKey :: string
  formData :: "FormFields promise"
  randomHash :: string
  arrayBuffer :: "string promise"
  listBuckets :: "(string + string list) promise"
  createBucket :: "(string + unit) promise"
  uploadFile :: "(string + unit) promise"
  publicUrl :: "string option"
  jsonParses :: "string \<Rightarrow> bool"
  uploadMetadata :: "(string + unit) promise"

datatype ResponseBody = Failure string | Success string string

datatype NextResponse = NextResponse (resp_body: ResponseBody) (resp_status: nat)

text \<open>Storage writes that were issued and console lines, in order.\<close>

datatype route_event =
    StorageUpload string
  | ConsoleLog string
  | ConsoleWarn string
  | ConsoleError string

text \<open>\<open>name.split(".")\<close>\<close>

fun split_on :: "char \<Rightarrow> string \<Rightarrow> string list" where
  "split_on c [] = [[]]"
| "split_on c (x # xs) =
     (if x = c then [] # split_on c xs
      else (case split_on c xs of [] \<Rightarrow> [[x]] | w # ws \<Rightarrow> (x # w) # ws))"

text \<open>The outer \<open>catch\<close>.\<close>

definition caught :: "string \<Rightarrow> route_event list \<Rightarrow> NextResponse \<times> route_event list" where
  "caught message out =
     (NextResponse (Failure message) 500, out @ [ConsoleError ''Error uploading original audio:''])"

text \<open>
  Lines 123-139, the body of the inner \<open>try\<close>: \<^term>\<open>Inl (message, out)\<close> is an
  exception thrown inside it, \<^term>\<open>Inr out\<close> its normal end.
\<close>

definition metadataTry ::
    "UploadEnv \<Rightarrow> string \<Rightarrow> route_event list \<Rightarrow> (string \<times> route_event list) + route_event list" where
  "metadataTry env breakpointsJson out =
     (let metadataKey = ''audio/metadata-'' @ randomHash env @ ''.json''
      in if \<not> jsonParses env breakpointsJson then Inl (''SyntaxError'', out)
         else
           (case uploadMetadata env of
              Rejects message \<Rightarrow> Inl (message, out @ [StorageUpload metadataKey])
            | Resolves (Inl metadataError) \<Rightarrow>
                Inr (out @ [StorageUpload metadataKey,
                            ConsoleWarn ''Failed to upload metadata, but continuing with main file upload:''])
            | Resolves (Inr u) \<Rightarrow> Inr (out @ [StorageUpload metadataKey])))"

text \<open>
  Lines 121-144: \<open>if (breakpointsJson) { try { ... } catch (metadataError) { ... } }\<close>.
  The result is again \<^term>\<open>Inl\<close> for an exception that leaves the block.
\<close>

definition storeMetadata ::
    "UploadEnv \<Rightarrow> string option \<Rightarrow> route_event list \<Rightarrow> (string \<times> route_event list) + route_event list" where
  "storeMetadata env breakpointsJson out =
     (case breakpointsJson of
        None \<Rightarrow> Inr out
      | Some json \<Rightarrow>
          if json = [] then Inr out
          else
            (case metadataTry env json out of
               Inl (metadataError, out') \<Rightarrow>
                 Inr (out' @ [ConsoleError ''Failed to process or upload metadata, but continuing:''])
             | Inr out' \<Rightarrow> Inr out'))"

text \<open>Lines 89-150: from the upload of the audio file to the answer.\<close>

definition uploadAndAnswer ::
    "UploadEnv \<Rightarrow> string \<Rightarrow> string option \<Rightarrow> route_event list \<Rightarrow> NextResponse \<times> route_event list" where
  "uploadAndAnswer env key breakpointsJson out0 =
     (let out1 = out0 @ [ConsoleLog ''Uploading audio file:'', StorageUpload key]
      in case uploadFile env of
           Rejects message \<Rightarrow> caught message out1
         | Resolves (Inl fileError) \<Rightarrow>
             (NextResponse (Failure (''Failed to upload audio file: '' @ fileError)) 500,
              out1 @ [ConsoleError ''File upload error:''])
         | Resolves (Inr u) \<Rightarrow>
             (case publicUrl env of
                None \<Rightarrow> (NextResponse (Failure ''Failed to get public URL'') 500, out1)
              | Some purl \<Rightarrow>
                  if purl = [] then (NextResponse (Failure ''Failed to get public URL'') 500, out1)
                  else
                    (case storeMetadata env breakpointsJson out1 of
                       Inl (message, out2) \<Rightarrow> caught message out2
                     | Inr out2 \<Rightarrow> (NextResponse (Success key purl) 200, out2))))"

definition POST :: "UploadEnv \<Rightarrow> NextResponse \<times> route_event list" where
  "POST env =
     (if supabaseUrl env = [] \<or> supabaseAnonKey env = [] then
        (NextResponse (Failure ''Supabase credentials not configured'') 500,
         [ConsoleError ''Missing Supabase credentials:''])
      else case formData env of
        Rejects message \<Rightarrow> caught message []
      | Resolves form \<Rightarrow>
          (case form_file form of
             None \<Rightarrow> (NextResponse (Failure ''No file provided'') 400, [])
           | Some audioFile \<Rightarrow>
               (let breakpointsJson = form_breakpoints form;
                    fileExtension = last (split_on CHR ''.'' (file_name audioFile));
                    key = ''audio/original-'' @ randomHash env @ ''.'' @ fileExtension
                in case arrayBuffer env of
                     Rejects message \<Rightarrow> caught message []
                   | Resolves bytes \<Rightarrow>
                       (case listBuckets env of
                          Rejects message \<Rightarrow> caught message []
                        | Resolves (Inl bucketsError) \<Rightarrow>
                            (NextResponse (Failure ''Failed to check storage buckets'') 500,
                             [ConsoleError ''Error listing buckets:''])
                        | Resolves (Inr buckets) \<Rightarrow>
                            (let bucketExists = list_ex (\<lambda>bucket. bucket = ''audio-files'') buckets
                             in if \<not> bucketExists then
                                  (case createBucket env of
                                     Rejects message \<Rightarrow> caught message []
                                   | Resolves (Inl createBucketError) \<Rightarrow>
                                       (NextResponse (Failure ''Failed to create storage bucket'') 500,
                                        [ConsoleError ''Error creating bucket:''])
                                   | Resolves (Inr u) \<Rightarrow> uploadAndAnswer env key breakpointsJson [])
                                else uploadAndAnswer env key breakpointsJson [])))))"


section \<open>Sample inputs\<close>

text \<open>A track of 120 seconds cut at 30 and 90 seconds.\<close>

definition track120 :: AudioFile where
  "track120 =
     (newTrack ''file-1'' (File ''a.mp3'' 1024 ''audio/mpeg'') ''blob:a'' 120)\<lparr>breakpoints := [30, 90]\<rparr>"

text \<open>A track of 100 seconds and one of 60 seconds, as \<open>handleFileUpload\<close> creates them.\<close>

definition track100 :: AudioFile where
  "track100 = newTrack ''file-2'' (File ''b.mp3'' 2048 ''audio/mpeg'') ''blob:b'' 100"

definition track60 :: AudioFile where
  "track60 = newTrack ''file-3'' (File ''c.mp3'' 512 ''audio/mpeg'') ''blob:c'' 60"

text \<open>Pages holding these tracks.\<close>

definition editor120 :: VideoEditor where
  "editor120 = \<lparr> audioFiles = [track120], isSubmitting = False, draggedItem = None \<rparr>"

text \<open>Three tracks while the first one is being dragged.\<close>

definition editor3 :: VideoEditor where
  "editor3 =
     \<lparr> audioFiles = [track120, track100, track60], isSubmitting = False, draggedItem = Some 0 \<rparr>"

text \<open>Two tracks, the first of which is in the middle of its upload.\<close>

definition editorBusy :: VideoEditor where
  "editorBusy =
     \<lparr> audioFiles = [track120\<lparr>uploading := True\<rparr>, track100],
       isSubmitting = False, draggedItem = None \<rparr>"

text \<open>Answers of \<open>/api/upload\<close> and of the processing API.\<close>

definition uploadOk :: upload_response where
  "uploadOk =
     Resolves (Resolves (UploadResult True (Some ''audio/original-h.mp3'')
       (Some ''https://storage.example/audio/original-h.mp3'') None))"

definition uploadRefused :: upload_response where
  "uploadRefused = Resolves (Resolves (UploadResult False None None (Some ''No file provided'')))"

definition processOk :: process_response where
  "processOk = Resolves (ApiResponse True ''OK'' (Resolves None))"

text \<open>
  A request to the upload route whose \<open>breakpoints\<close> field is no JSON, on a storage
  that accepts the audio file.
\<close>

definition envBadMetadata :: UploadEnv where
  "envBadMetadata =
     \<lparr> supabaseUrl = ''https://project.supabase.co'',
       supabaseAnonKey = ''anon-key'',
       formData = Resolves (FormFields (Some (File ''a.mp3'' 1024 ''audio/mpeg'')) (Some ''{not json'')),
       randomHash = ''h'',
       arrayBuffer = Resolves ''bytes'',
       listBuckets = Resolves (Inr [''audio-files'']),
       createBucket = Resolves (Inr ()),
       uploadFile = Resolves (Inr ()),
       publicUrl = Some ''https://storage.example/audio/original-h.mp3'',
       jsonParses = (\<lambda>text. False),
       uploadMetadata = Resolves (Inl ''bucket quota exceeded'') \<rparr>"



section \<open>Properties of the rounding\<close>

lemma roundHalfEven_of_int: "roundHalfEven (of_int k) = k"
  by (simp add: roundHalfEven_def)

text \<open>An integer below \<open>2^53\<close> in magnitude is a double, and rounding leaves it alone.\<close>

lemma round64_of_int:
  assumes "\<bar>m\<bar> < 2 ^ 53"
  shows "round64 (of_int m) = of_int m"
proof (cases "m = 0")
  case True
  then show ?thesis by (simp add: round64_def)
next
  case False
  define e where "e = max \<lfloor>log 2 \<bar>real_of_int m\<bar>\<rfloor> (- 1022) - 52"
  have pos: "0 < \<bar>real_of_int m\<bar>" using False by simp
  have "\<bar>real_of_int m\<bar> < 2 ^ 53"
    using assms by (metis of_int_abs of_int_less_numeral_power_cancel_iff)
  then have "\<bar>real_of_int m\<bar> < 2 powr 53" by simp
  then have "log 2 \<bar>real_of_int m\<bar> < 53"
    using pos by (simp add: log_less_iff)
  then have "\<lfloor>log 2 \<bar>real_of_int m\<bar>\<rfloor> \<le> 52" by linarith
  then have e0: "e \<le> 0" by (simp add: e_def)
  have ulp: "2 powr real_of_int e = inverse (2 ^ nat (- e))"
    using e0 by (cases "e = 0") (simp_all add: powr_real_of_int)
  have "real_of_int m / 2 powr real_of_int e = of_int (m * 2 ^ nat (- e))"
    by (simp add: ulp divide_inverse)
  then have "roundHalfEven (real_of_int m / 2 powr real_of_int e) = m * 2 ^ nat (- e)"
    by (simp only: roundHalfEven_of_int)
  then have "round64 (of_int m) = 2 powr real_of_int e * of_int (m * 2 ^ nat (- e))"
    using False by (simp add: round64_def e_def Let_def)
  also have "\<dots> = of_int m" by (simp add: ulp)
  finally show ?thesis .
qed

lemma round64_numeral: "numeral k < (2::int) ^ 53 \<Longrightarrow> round64 (numeral k) = numeral k"
  using round64_of_int [of "numeral k"] by simp

lemma floor_log2_eq:
  assumes "0 < x" and "2 powr of_int k \<le> x" and "x < 2 powr of_int (k + 1)"
  shows "\<lfloor>log 2 x\<rfloor> = k"
proof -
  have "of_int k \<le> log 2 x" using assms by (simp add: le_log_iff)
  moreover have "log 2 x < of_int (k + 1)" using assms by (simp add: log_less_iff)
  ultimately show ?thesis by linarith
qed

section \<open>Properties of the chunk derivation\<close>

lemma chunkLoop_map:
  "chunkLoop fid bs i acc = acc @ map (mkChunk fid bs) [i ..< length bs - 1]"
proof (induction fid bs i acc rule: chunkLoop.induct)
  case (1 fid bs i acc)
  show ?case
  proof (cases "int i < int (length bs) - 1")
    case True
    then have lt: "i < length bs - 1" by linarith
    have "chunkLoop fid bs i acc = chunkLoop fid bs (i + 1) (acc @ [mkChunk fid bs i])"
      using True by (subst chunkLoop.simps) simp
    also have "\<dots> = (acc @ [mkChunk fid bs i]) @ map (mkChunk fid bs) [i + 1 ..< length bs - 1]"
      using "1.IH" True by simp
    also have "\<dots> = acc @ map (mkChunk fid bs) [i ..< length bs - 1]"
      using lt by (simp add: upt_conv_Cons)
    finally show ?thesis .
  next
    case False
    then have "\<not> i < length bs - 1" by linarith
    then show ?thesis using False by (subst chunkLoop.simps) simp
  qed
qed

lemma computeChunks_map:
  "computeChunks f =
     map (mkChunk (id_file f) (boundaries (breakpoints f) (duration f)))
         [0 ..< length (breakpoints f) + 1]"
  by (simp add: computeChunks_def chunkLoop_map boundaries_def)

lemma length_computeChunks: "length (computeChunks f) = length (breakpoints f) + 1"
  by (simp add: computeChunks_map)

lemma startTime_computeChunks:
  "i \<le> length (breakpoints f) \<Longrightarrow>
     startTime (computeChunks f ! i) = boundaries (breakpoints f) (duration f) ! i"
  by (simp add: computeChunks_map mkChunk_def Let_def del: upt_Suc)

lemma endTime_computeChunks:
  "i \<le> length (breakpoints f) \<Longrightarrow>
     endTime (computeChunks f ! i) = boundaries (breakpoints f) (duration f) ! (i + 1)"
  by (simp add: computeChunks_map mkChunk_def Let_def del: upt_Suc)

lemma hd_computeChunks: "startTime (hd (computeChunks f)) = 0"
proof -
  have "computeChunks f \<noteq> []" using length_computeChunks [of f] by auto
  then have "hd (computeChunks f) = computeChunks f ! 0" by (simp add: hd_conv_nth)
  then show ?thesis by (simp add: startTime_computeChunks boundaries_def)
qed

lemma last_computeChunks: "endTime (last (computeChunks f)) = duration f"
proof -
  have ne: "computeChunks f \<noteq> []" using length_computeChunks [of f] by auto
  have "last (computeChunks f) = computeChunks f ! length (breakpoints f)"
    using ne by (simp add: last_conv_nth length_computeChunks)
  then show ?thesis by (simp add: endTime_computeChunks boundaries_def nth_append)
qed

lemma adjacent_computeChunks:
  "i + 1 < length (computeChunks f) \<Longrightarrow>
     endTime (computeChunks f ! i) = startTime (computeChunks f ! (i + 1))"
  by (simp add: length_computeChunks endTime_computeChunks startTime_computeChunks)

lemma computeChunks_track120:
  "computeChunks track120 =
     [\<lparr>id_chunk = ''chunk-file-1-0'', startTime = 0, endTime = 30, duration_chunk = 30\<rparr>,
      \<lparr>id_chunk = ''chunk-file-1-1'', startTime = 30, endTime = 90, duration_chunk = 60\<rparr>,
      \<lparr>id_chunk = ''chunk-file-1-2'', startTime = 90, endTime = 120, duration_chunk = 30\<rparr>]"
  by (simp add: computeChunks_map track120_def newTrack_def boundaries_def mkChunk_def
      showNat.simps upt_rec js_sub_def round64_numeral)

lemma strict_boundaries_iff:
  "sorted_wrt (<) ([0] @ bps @ [d]) \<longleftrightarrow>
     0 < d \<and> sorted_wrt (<) bps \<and> (\<forall>b \<in> set bps. 0 < b \<and> b < d)"
  by (auto simp: sorted_wrt_append)

lemma map_nth_upt_take: "k \<le> length xs \<Longrightarrow> map ((!) xs) [0 ..< k] = take k xs"
  by (rule nth_equalityI) simp_all

lemma map_nth_Suc_upt: "k < length xs \<Longrightarrow> map (\<lambda>i. xs ! (i + 1)) [0 ..< k] = take k (tl xs)"
  by (rule nth_equalityI) (simp_all add: nth_tl)

lemma startTimes_computeChunks: "map startTime (computeChunks f) = [0] @ breakpoints f"
proof -
  let ?bs = "boundaries (breakpoints f) (duration f)"
  have "map startTime (computeChunks f) = map ((!) ?bs) [0 ..< length (breakpoints f) + 1]"
    by (simp add: computeChunks_map mkChunk_def Let_def comp_def del: upt_Suc)
  also have "\<dots> = take (length (breakpoints f) + 1) ?bs"
    by (rule map_nth_upt_take) (simp add: boundaries_def)
  also have "\<dots> = [0] @ breakpoints f"
    by (simp add: boundaries_def)
  finally show ?thesis .
qed

lemma endTimes_computeChunks: "map endTime (computeChunks f) = breakpoints f @ [duration f]"
proof -
  let ?bs = "boundaries (breakpoints f) (duration f)"
  have "map endTime (computeChunks f) = map (\<lambda>i. ?bs ! (i + 1)) [0 ..< length (breakpoints f) + 1]"
    by (simp add: computeChunks_map mkChunk_def Let_def comp_def del: upt_Suc)
  also have "\<dots> = take (length (breakpoints f) + 1) (tl ?bs)"
    by (rule map_nth_Suc_upt) (simp add: boundaries_def)
  also have "\<dots> = breakpoints f @ [duration f]"
    by (simp add: boundaries_def)
  finally show ?thesis .
qed

lemma chunks_forward:
  assumes "0 < duration f"
    and "\<forall>b \<in> set (breakpoints f). 0 < b \<and> b < duration f"
    and "sorted_wrt (<) (breakpoints f)"
    and "i < length (computeChunks f)"
  shows "0 \<le> startTime (computeChunks f ! i)"
    and "startTime (computeChunks f ! i) < endTime (computeChunks f ! i)"
    and "endTime (computeChunks f ! i) \<le> duration f"
    and "i < j \<Longrightarrow> j < length (computeChunks f) \<Longrightarrow>
           endTime (computeChunks f ! i) \<le> startTime (computeChunks f ! j)"
proof -
  let ?bs = "boundaries (breakpoints f) (duration f)"
  let ?n = "length (breakpoints f)"
  have st: "sorted_wrt (<) ?bs"
    unfolding boundaries_def using strict_boundaries_iff [of "breakpoints f" "duration f"] assms(1-3)
    by blast
  have len: "length ?bs = ?n + 2" by (simp add: boundaries_def)
  have i: "i \<le> ?n" using assms(4) by (simp add: length_computeChunks)
  have lt: "?bs ! a < ?bs ! b" if "a < b" "b < ?n + 2" for a b
    using st that len by (simp add: sorted_wrt_nth_less)
  have le: "?bs ! a \<le> ?bs ! b" if "a \<le> b" "b < ?n + 2" for a b
    using lt [of a b] that by (cases "a = b") simp_all
  have b0: "?bs ! 0 = 0" by (simp add: boundaries_def)
  have bl: "?bs ! (?n + 1) = duration f" by (simp add: boundaries_def nth_append)
  have s: "startTime (computeChunks f ! i) = ?bs ! i"
    using i by (rule startTime_computeChunks)
  have e: "endTime (computeChunks f ! i) = ?bs ! (i + 1)"
    using i by (rule endTime_computeChunks)
  show "0 \<le> startTime (computeChunks f ! i)"
    using le [of 0 i] i b0 s by simp
  show "startTime (computeChunks f ! i) < endTime (computeChunks f ! i)"
    using lt [of i "i + 1"] i s e by simp
  show "endTime (computeChunks f ! i) \<le> duration f"
    using le [of "i + 1" "?n + 1"] i bl e by simp
  show "endTime (computeChunks f ! i) \<le> startTime (computeChunks f ! j)"
    if "i < j" "j < length (computeChunks f)"
  proof -
    have j: "j \<le> ?n" using that(2) by (simp add: length_computeChunks)
    have "startTime (computeChunks f ! j) = ?bs ! j"
      using j by (rule startTime_computeChunks)
    then show ?thesis using le [of "i + 1" j] that(1) j e by simp
  qed
qed

text \<open>
  Claim C1. For a track of duration \<open>d > 0\<close> whose breakpoints lie strictly between
  \<open>0\<close> and \<open>d\<close>, in the ascending order in which the page keeps them, the chunks
  computed by \<open>saveAudioFile\<close> partition \<open>[0, d]\<close>: they are one more than the
  breakpoints, the first starts at \<open>0\<close>, the last ends at \<open>d\<close>, every chunk ends where
  the next one starts, the cuts are exactly the breakpoints, every chunk runs forward
  inside \<open>[0, d]\<close>, and no two chunks overlap.
\<close>

theorem C1_chunks_partition:
  assumes "0 < duration f"
    and "\<forall>b \<in> set (breakpoints f). 0 < b \<and> b < duration f"
    and "sorted_wrt (<) (breakpoints f)"
  shows "length (computeChunks f) = length (breakpoints f) + 1
       \<and> startTime (hd (computeChunks f)) = 0
       \<and> endTime (last (computeChunks f)) = duration f
       \<and> (\<forall>i. i + 1 < length (computeChunks f) \<longrightarrow>
             endTime (computeChunks f ! i) = startTime (computeChunks f ! (i + 1)))
       \<and> map startTime (computeChunks f) = [0] @ breakpoints f
       \<and> map endTime (computeChunks f) = breakpoints f @ [duration f]
       \<and> (\<forall>i < length (computeChunks f).
             0 \<le> startTime (computeChunks f ! i)
           \<and> startTime (computeChunks f ! i) < endTime (computeChunks f ! i)
           \<and> endTime (computeChunks f ! i) \<le> duration f)
       \<and> (\<forall>i j. i < j \<and> j < length (computeChunks f) \<longrightarrow>
             endTime (computeChunks f ! i) \<le> startTime (computeChunks f ! j))"
proof -
  have fw: "\<forall>i < length (computeChunks f).
             0 \<le> startTime (computeChunks f ! i)
           \<and> startTime (computeChunks f ! i) < endTime (computeChunks f ! i)
           \<and> endTime (computeChunks f ! i) \<le> duration f"
    using chunks_forward(1-3) [OF assms] by blast
  have no: "\<forall>i j. i < j \<and> j < length (computeChunks f) \<longrightarrow>
             endTime (computeChunks f ! i) \<le> startTime (computeChunks f ! j)"
  proof (intro allI impI)
    fix i j
    assume a: "i < j \<and> j < length (computeChunks f)"
    then have "i < length (computeChunks f)" by simp
    from chunks_forward(4) [OF assms this] a
    show "endTime (computeChunks f ! i) \<le> startTime (computeChunks f ! j)" by blast
  qed
  show ?thesis
    using length_computeChunks [of f] hd_computeChunks [of f] last_computeChunks [of f]
      adjacent_computeChunks [of _ f] startTimes_computeChunks [of f] endTimes_computeChunks [of f]
      fw no
    by blast
qed

text \<open>
  Claim C1 at the track of 120 seconds cut at 30 and 90: three chunks from 0 to 120,
  cut at 30 and 90, each running forward, none overlapping.
\<close>

theorem C1_chunks_partition_witness:
  "length (computeChunks track120) = 3
   \<and> startTime (hd (computeChunks track120)) = 0
   \<and> endTime (last (computeChunks track120)) = 120
   \<and> endTime (computeChunks track120 ! 0) = startTime (computeChunks track120 ! 1)
   \<and> map startTime (computeChunks track120) = [0, 30, 90]
   \<and> map endTime (computeChunks track120) = [30, 90, 120]
   \<and> startTime (computeChunks track120 ! 1) < endTime (computeChunks track120 ! 1)
   \<and> endTime (computeChunks track120 ! 0) \<le> startTime (computeChunks track120 ! 2)"
proof -
  have h1: "0 < duration track120"
    by (simp add: track120_def newTrack_def)
  have h2: "\<forall>b \<in> set (breakpoints track120). 0 < b \<and> b < duration track120"
    by (simp add: track120_def newTrack_def)
  have h3: "sorted_wrt (<) (breakpoints track120)"
    by (simp add: track120_def newTrack_def)
  have b: "breakpoints track120 = [30, 90]" and d: "duration track120 = 120"
    by (simp_all add: track120_def newTrack_def)
  note T = C1_chunks_partition [OF h1 h2 h3, unfolded b d]
  have L: "length (computeChunks track120) = 3"
    using T [THEN conjunct1] by simp
  have A0: "endTime (computeChunks track120 ! 0) = startTime (computeChunks track120 ! 1)"
    using T [THEN conjunct2, THEN conjunct2, THEN conjunct2, THEN conjunct1, rule_format, of 0] L
    by simp
  have S: "map startTime (computeChunks track120) = [0, 30, 90]"
    using T [THEN conjunct2, THEN conjunct2, THEN conjunct2, THEN conjunct2, THEN conjunct1]
    by simp
  have E: "map endTime (computeChunks track120) = [30, 90, 120]"
    using T [THEN conjunct2, THEN conjunct2, THEN conjunct2, THEN conjunct2, THEN conjunct2,
        THEN conjunct1]
    by simp
  have F: "startTime (computeChunks track120 ! 1) < endTime (computeChunks track120 ! 1)"
    using T [THEN conjunct2, THEN conjunct2, THEN conjunct2, THEN conjunct2, THEN conjunct2,
        THEN conjunct2, THEN conjunct1, rule_format, of 1] L
    by simp
  have N: "endTime (computeChunks track120 ! 0) \<le> startTime (computeChunks track120 ! 2)"
    using T [THEN conjunct2, THEN conjunct2, THEN conjunct2, THEN conjunct2, THEN conjunct2,
        THEN conjunct2, THEN conjunct2, rule_format, of 0 2] L
    by simp
  show ?thesis
    using L T [THEN conjunct2, THEN conjunct1]
      T [THEN conjunct2, THEN conjunct2, THEN conjunct1] A0 S E F N
    by simp
qed

lemma sort_remdups_fix_iff:
  fixes xs :: "'a::linorder list"
  shows "xs = sort (remdups xs) \<longleftrightarrow> sorted_wrt (<) xs"
proof
  assume e: "xs = sort (remdups xs)"
  have "sorted (sort (remdups xs))" by simp
  moreover have "distinct (sort (remdups xs))" by simp
  ultimately have "sorted xs" "distinct xs" using e by metis+
  then show "sorted_wrt (<) xs" by (simp add: strict_sorted_iff)
next
  assume "sorted_wrt (<) xs"
  then have "sorted xs" "distinct xs" by (simp_all add: strict_sorted_iff)
  then show "xs = sort (remdups xs)" by (simp add: sort_key_id_if_sorted distinct_remdups_id)
qed

text \<open>
  Claim C2, as amended. The boundary sequence of \<open>saveAudioFile\<close> is the stored list
  between \<open>0\<close> and the duration, neither sorted nor deduplicated there: it is the
  specification's \<open>sort(unique({0} \<union> B \<union> {d}))\<close> exactly when \<open>d > 0\<close> and the stored
  breakpoints are strictly ascending and strictly between \<open>0\<close> and \<open>d\<close>. There is one
  chunk for every index \<open>i\<close> below \<open>len(boundaries) - 1\<close>, from \<open>boundaries[i]\<close> to
  \<open>boundaries[i+1]\<close>, with duration \<open>end - start\<close> as the source subtracts.
\<close>

theorem C2_boundaries_as_stored:
  "(boundaries bps d = spec_boundaries bps d \<longleftrightarrow>
      0 < d \<and> sorted_wrt (<) bps \<and> (\<forall>b \<in> set bps. 0 < b \<and> b < d))
   \<and> length (computeChunks f) = length (boundaries (breakpoints f) (duration f)) - 1
   \<and> (\<forall>i < length (boundaries (breakpoints f) (duration f)) - 1.
        startTime (computeChunks f ! i) = boundaries (breakpoints f) (duration f) ! i
      \<and> endTime (computeChunks f ! i) = boundaries (breakpoints f) (duration f) ! (i + 1)
      \<and> duration_chunk (computeChunks f ! i) =
          js_sub (endTime (computeChunks f ! i)) (startTime (computeChunks f ! i)))"
proof -
  have a: "boundaries bps d = spec_boundaries bps d \<longleftrightarrow>
      0 < d \<and> sorted_wrt (<) bps \<and> (\<forall>b \<in> set bps. 0 < b \<and> b < d)"
    unfolding boundaries_def spec_boundaries_def
    using sort_remdups_fix_iff [of "[0] @ bps @ [d]"] strict_boundaries_iff [of bps d]
    by blast
  have b: "length (computeChunks f) = length (boundaries (breakpoints f) (duration f)) - 1"
    by (simp add: length_computeChunks boundaries_def)
  have c: "duration_chunk (computeChunks f ! i) =
          js_sub (endTime (computeChunks f ! i)) (startTime (computeChunks f ! i))"
    if "i < length (boundaries (breakpoints f) (duration f)) - 1" for i
    using that by (simp add: computeChunks_map mkChunk_def Let_def boundaries_def del: upt_Suc)
  show ?thesis
    using a b c by (simp add: startTime_computeChunks endTime_computeChunks boundaries_def)
qed

text \<open>
  Claim C2 as stated fails for the breakpoint list \<open>[0]\<close> (the "Add Breakpoint" button
  before any playback) on a track of 10 seconds: the boundary sequence keeps the
  duplicate \<open>0\<close>, and the three boundaries give two chunks, not \<open>3 - 2\<close>.
\<close>

theorem C2_boundaries_counterexample:
  "(0::real) < 10
   \<and> boundaries [0] 10 = [0, 0, 10]
   \<and> spec_boundaries [0] 10 = [0, 10]
   \<and> boundaries [0] 10 \<noteq> spec_boundaries [0] 10
   \<and> length (computeChunks ((newTrack ''file-1'' (File ''a.mp3'' 1024 ''audio/mpeg'') ''blob:a'' 10)\<lparr>breakpoints := [0]\<rparr>)) = 2"
  by (simp add: boundaries_def spec_boundaries_def length_computeChunks newTrack_def)

text \<open>
  Claim C2, as amended, at duration 120 and breakpoints 30 and 90: the boundaries are
  \<open>[0, 30, 90, 120]\<close> and the middle chunk runs from 30 to 90.
\<close>

theorem C2_boundaries_as_stored_witness:
  "boundaries [30, 90] 120 = spec_boundaries [30, 90] 120
   \<and> boundaries [30, 90] 120 = [0, 30, 90, 120]
   \<and> length (computeChunks track120) = 3
   \<and> startTime (computeChunks track120 ! 1) = 30
   \<and> endTime (computeChunks track120 ! 1) = 90
   \<and> duration_chunk (computeChunks track120 ! 1) = 60"
proof -
  have h: "(0::real) < 120 \<and> sorted_wrt (<) [30, 90::real] \<and> (\<forall>b \<in> set [30, 90::real]. 0 < b \<and> b < 120)"
    by simp
  have i: "(1::nat) < length (boundaries (breakpoints track120) (duration track120)) - 1"
    by (simp add: boundaries_def track120_def newTrack_def)
  have bs: "boundaries (breakpoints track120) (duration track120) = [0, 30, 90, 120]"
    by (simp add: boundaries_def track120_def newTrack_def)
  note T = C2_boundaries_as_stored [of "[30, 90]" 120 track120]
  have e: "boundaries [30, 90] 120 = spec_boundaries [30, 90] 120"
    using T [THEN conjunct1] h by blast
  have L: "length (computeChunks track120) = 3"
    using T [THEN conjunct2, THEN conjunct1] bs by simp
  have c: "startTime (computeChunks track120 ! 1) = 30
         \<and> endTime (computeChunks track120 ! 1) = 90
         \<and> duration_chunk (computeChunks track120 ! 1) = 60"
    using T [THEN conjunct2, THEN conjunct2, rule_format, OF i] bs
    by (simp add: js_sub_def round64_numeral)
  show ?thesis
    using e L c by (simp add: boundaries_def)
qed

section \<open>Properties of the breakpoint operations\<close>

lemma map_id_cong: "(\<And>x. x \<in> set xs \<Longrightarrow> f x = x) \<Longrightarrow> map f xs = xs"
  by (induction xs) auto

lemma filter_neq_absent: "t \<notin> set xs \<Longrightarrow> filter (\<lambda>bp. bp \<noteq> t) xs = xs"
  by (induction xs) auto

text \<open>
  The page keeps the breakpoints of every track in strictly ascending order: a new
  track has none, \<open>addBreakpoint\<close> sorts and refuses a time that is present, and
  \<open>removeBreakpoint\<close> only drops entries.
\<close>

lemma sort_snoc_ascending:
  fixes bps :: "number list"
  assumes "sorted_wrt (<) bps" and "t \<notin> set bps"
  shows "sorted_wrt (<) (sort (bps @ [t]))"
proof -
  have "distinct (bps @ [t])" using assms by (simp add: strict_sorted_iff)
  then have "distinct (sort (bps @ [t]))" by (simp only: distinct_sort)
  then show ?thesis by (simp add: strict_sorted_iff)
qed

lemma newTrack_ascending: "sorted_wrt (<) (breakpoints (newTrack i f u d))"
  by (simp add: newTrack_def)

lemma addBreakpoint_keeps_ascending:
  assumes "\<forall>f \<in> set (audioFiles s). sorted_wrt (<) (breakpoints f)"
  shows "\<forall>f \<in> set (audioFiles (addBreakpoint fileId time s)). sorted_wrt (<) (breakpoints f)"
proof (intro ballI)
  let ?u = "\<lambda>file. if id_file file = fileId then
           (if time \<notin> set (breakpoints file) then
              (let newBreakpoints = sort (breakpoints file @ [time])
               in file\<lparr>breakpoints := newBreakpoints\<rparr>)
            else file)
         else file"
  fix f
  assume "f \<in> set (audioFiles (addBreakpoint fileId time s))"
  then have "f \<in> set (map ?u (audioFiles s))"
    by (simp only: addBreakpoint_def setAudioFiles_def) simp
  then obtain x where x: "x \<in> set (audioFiles s)" and f: "f = ?u x"
    by (auto simp only: set_map image_iff)
  have sx: "sorted_wrt (<) (breakpoints x)" using assms x by blast
  show "sorted_wrt (<) (breakpoints f)"
  proof (cases "id_file x = fileId \<and> time \<notin> set (breakpoints x)")
    case True
    then have "breakpoints f = sort (breakpoints x @ [time])"
      using f by (simp add: Let_def)
    then show ?thesis using sort_snoc_ascending [OF sx] True by simp
  next
    case False
    then have "f = x" using f by auto
    then show ?thesis using sx by simp
  qed
qed

lemma removeBreakpoint_keeps_ascending:
  assumes "\<forall>f \<in> set (audioFiles s). sorted_wrt (<) (breakpoints f)"
  shows "\<forall>f \<in> set (audioFiles (removeBreakpoint fileId time s)). sorted_wrt (<) (breakpoints f)"
proof (intro ballI)
  let ?u = "\<lambda>file. if id_file file = fileId then
           file\<lparr>breakpoints := filter (\<lambda>bp. bp \<noteq> time) (breakpoints file)\<rparr>
         else file"
  fix f
  assume "f \<in> set (audioFiles (removeBreakpoint fileId time s))"
  then have "f \<in> set (map ?u (audioFiles s))"
    by (simp only: removeBreakpoint_def setAudioFiles_def) simp
  then obtain x where x: "x \<in> set (audioFiles s)" and f: "f = ?u x"
    by (auto simp only: set_map image_iff)
  have sx: "sorted_wrt (<) (breakpoints x)" using assms x by blast
  show "sorted_wrt (<) (breakpoints f)"
  proof (cases "id_file x = fileId")
    case True
    then have "breakpoints f = filter (\<lambda>bp. bp \<noteq> time) (breakpoints x)"
      using f by simp
    then show ?thesis using sx by (simp add: sorted_wrt_filter)
  next
    case False
    then have "f = x" using f by simp
    then show ?thesis using sx by simp
  qed
qed

text \<open>
  Claim C8. \<open>addBreakpoint\<close> with a time that the track's list already holds, and
  \<open>removeBreakpoint\<close> with a time that it does not hold, leave the page state
  unchanged.
\<close>

theorem C8_breakpoint_noops:
  "((\<forall>f \<in> set (audioFiles s). id_file f = fileId \<longrightarrow> time \<in> set (breakpoints f))
      \<longrightarrow> addBreakpoint fileId time s = s)
   \<and> ((\<forall>f \<in> set (audioFiles s). id_file f = fileId \<longrightarrow> time \<notin> set (breakpoints f))
      \<longrightarrow> removeBreakpoint fileId time s = s)"
proof (intro conjI impI)
  assume p: "\<forall>f \<in> set (audioFiles s). id_file f = fileId \<longrightarrow> time \<in> set (breakpoints f)"
  have "map (\<lambda>file.
         if id_file file = fileId then
           (if time \<notin> set (breakpoints file) then
              (let newBreakpoints = sort (breakpoints file @ [time])
               in file\<lparr>breakpoints := newBreakpoints\<rparr>)
            else file)
         else file) (audioFiles s) = audioFiles s"
    using p by (intro map_id_cong) auto
  then show "addBreakpoint fileId time s = s"
    by (simp add: addBreakpoint_def setAudioFiles_def)
next
  assume a: "\<forall>f \<in> set (audioFiles s). id_file f = fileId \<longrightarrow> time \<notin> set (breakpoints f)"
  have "map (\<lambda>file.
         if id_file file = fileId then
           file\<lparr>breakpoints := filter (\<lambda>bp. bp \<noteq> time) (breakpoints file)\<rparr>
         else file) (audioFiles s) = audioFiles s"
    using a by (intro map_id_cong) (auto simp: filter_neq_absent)
  then show "removeBreakpoint fileId time s = s"
    by (simp add: removeBreakpoint_def setAudioFiles_def)
qed

text \<open>
  Claim C8 on the track cut at 30 and 90: adding 30 again and removing 45 change
  nothing, and the list keeps its two breakpoints.
\<close>

theorem C8_breakpoint_noops_witness:
  "addBreakpoint ''file-1'' 30 editor120 = editor120
   \<and> length (breakpoints (hd (audioFiles (addBreakpoint ''file-1'' 30 editor120)))) = 2
   \<and> removeBreakpoint ''file-1'' 45 editor120 = editor120"
proof -
  have p: "\<forall>f \<in> set (audioFiles editor120). id_file f = ''file-1'' \<longrightarrow> 30 \<in> set (breakpoints f)"
    by (simp add: editor120_def track120_def newTrack_def)
  have a: "\<forall>f \<in> set (audioFiles editor120). id_file f = ''file-1'' \<longrightarrow> 45 \<notin> set (breakpoints f)"
    by (simp add: editor120_def track120_def newTrack_def)
  note T = C8_breakpoint_noops [of editor120 "''file-1''"]
  have x: "addBreakpoint ''file-1'' 30 editor120 = editor120"
    using T [of 30, THEN conjunct1] p by blast
  have y: "removeBreakpoint ''file-1'' 45 editor120 = editor120"
    using T [of 45, THEN conjunct2] a by blast
  have z: "length (breakpoints (hd (audioFiles editor120))) = 2"
    by (simp add: editor120_def track120_def newTrack_def)
  show ?thesis using x y z by simp
qed

text \<open>
  Claim C10. For \<open>count \<le> 0\<close>, \<open>addEvenBreakpoints\<close> of the page returns the state
  as it is, and the helper of the track component invokes no callback.
\<close>

theorem C10_nonpositive_count_noop:
  "count' \<le> 0 \<Longrightarrow>
     addEvenBreakpoints snap fileId count' s = s
   \<and> track_addEvenBreakpoints hasAudioRef disabled audio count' = []"
  by (simp add: addEvenBreakpoints_def track_addEvenBreakpoints_def)

text \<open>
  Claim C10 at counts 0 and -3 on the track cut at 30 and 90: the breakpoints stay.
\<close>

theorem C10_nonpositive_count_noop_witness:
  "addEvenBreakpoints editor120 ''file-1'' 0 editor120 = editor120
   \<and> breakpoints (hd (audioFiles (addEvenBreakpoints editor120 ''file-1'' (- 3) editor120))) = [30, 90]
   \<and> track_addEvenBreakpoints True False track120 0 = []"
proof -
  have h0: "(0::int) \<le> 0" and h3: "(- 3::int) \<le> 0" by simp_all
  have b: "breakpoints (hd (audioFiles editor120)) = [30, 90]"
    by (simp add: editor120_def track120_def newTrack_def)
  show ?thesis
    using C10_nonpositive_count_noop [OF h0, of editor120 "''file-1''" editor120 True False track120]
      C10_nonpositive_count_noop [OF h3, of editor120 "''file-1''" editor120 True False track120] b
    by simp
qed

text \<open>
  What \<open>addEvenBreakpoints\<close> stores: the rounded products of the rounded interval with
  \<open>1, ..., count\<close>, in place of whatever the track had.
\<close>

lemma evenLoop_map:
  "evenLoop interval n i acc = acc @ map (\<lambda>k. js_mul interval (of_int k)) [i..n]"
proof (induction interval n i acc rule: evenLoop.induct)
  case (1 interval n i acc)
  show ?case
  proof (cases "i \<le> n")
    case True
    have "evenLoop interval n i acc = evenLoop interval n (i + 1) (acc @ [js_mul interval (of_int i)])"
      using True by (subst evenLoop.simps) simp
    also have "\<dots> = (acc @ [js_mul interval (of_int i)]) @ map (\<lambda>k. js_mul interval (of_int k)) [i + 1..n]"
      using "1.IH" True by simp
    also have "\<dots> = acc @ map (\<lambda>k. js_mul interval (of_int k)) [i..n]"
      using True by (simp add: upto_rec1)
    finally show ?thesis .
  next
    case False
    then show ?thesis by (subst evenLoop.simps) simp
  qed
qed

lemma map_map_update:
  "map (\<lambda>file. if id_file file = fileId then file\<lparr>breakpoints := ys\<rparr> else file)
     (map (\<lambda>file. if id_file file = fileId then file\<lparr>breakpoints := xs\<rparr> else file) prev)
   = map (\<lambda>file. if id_file file = fileId then file\<lparr>breakpoints := ys\<rparr> else file) prev"
  by (induction prev) auto

lemma addEvenBreakpoints_found:
  assumes "0 < n" and "find (\<lambda>file. id_file file = fileId) (audioFiles snap) = Some a"
  shows "addEvenBreakpoints snap fileId n s =
     s\<lparr>audioFiles :=
         map (\<lambda>file. if id_file file = fileId
                then file\<lparr>breakpoints := map (\<lambda>k. js_mul (js_div (duration a) (of_int (n + 1))) (of_int k)) [1..n]\<rparr>
                else file) (audioFiles s)\<rparr>"
  using assms
  by (simp add: addEvenBreakpoints_def setAudioFiles_def evenLoop_map Let_def map_map_update)

text \<open>
  At duration 100 and count 2 the division and the two products round: the page stores
  \<open>4691249611844267 / 2^47\<close> and \<open>4691249611844267 / 2^46\<close>, the doubles printed as
  \<open>33.333333333333336\<close> and \<open>66.66666666666667\<close>.
\<close>

lemma js_div_100_3: "js_div 100 3 = 4691249611844267 / 2 ^ 47"
proof -
  have l: "\<lfloor>log 2 \<bar>100 / 3 :: real\<bar>\<rfloor> = 5"
    by (rule floor_log2_eq) (simp_all add: powr_numeral)
  have u: "(2::real) powr of_int (max 5 (- 1022) - 52) = inverse (2 ^ 47)"
    by (simp add: powr_minus)
  have r: "roundHalfEven (100 / 3 / inverse (2 ^ 47)) = 4691249611844267"
    by (simp add: roundHalfEven_def Let_def)
  have "round64 (100 / 3) = inverse (2 ^ 47) * of_int 4691249611844267"
    by (simp only: round64_def Let_def l u r) simp
  then show ?thesis by (simp add: js_div_def)
qed

lemma js_mul_third_1: "js_mul (4691249611844267 / 2 ^ 47) 1 = 4691249611844267 / 2 ^ 47"
proof -
  have l: "\<lfloor>log 2 \<bar>4691249611844267 / 2 ^ 47 * 1 :: real\<bar>\<rfloor> = 5"
    by (rule floor_log2_eq) (simp_all add: powr_numeral)
  have u: "(2::real) powr of_int (max 5 (- 1022) - 52) = inverse (2 ^ 47)"
    by (simp add: powr_minus)
  have r: "roundHalfEven (4691249611844267 / 2 ^ 47 * 1 / inverse (2 ^ 47)) = 4691249611844267"
    by (simp add: roundHalfEven_def Let_def)
  have "round64 (4691249611844267 / 2 ^ 47 * 1) = inverse (2 ^ 47) * of_int 4691249611844267"
    by (simp only: round64_def Let_def l u r) simp
  then show ?thesis by (simp add: js_mul_def)
qed

lemma js_mul_third_2: "js_mul (4691249611844267 / 2 ^ 47) 2 = 4691249611844267 / 2 ^ 46"
proof -
  have l: "\<lfloor>log 2 \<bar>4691249611844267 / 2 ^ 47 * 2 :: real\<bar>\<rfloor> = 6"
    by (rule floor_log2_eq) (simp_all add: powr_numeral)
  have u: "(2::real) powr of_int (max 6 (- 1022) - 52) = inverse (2 ^ 46)"
    by (simp add: powr_minus)
  have r: "roundHalfEven (4691249611844267 / 2 ^ 47 * 2 / inverse (2 ^ 46)) = 4691249611844267"
    by (simp add: roundHalfEven_def Let_def)
  have "round64 (4691249611844267 / 2 ^ 47 * 2) = inverse (2 ^ 46) * of_int 4691249611844267"
    by (simp only: round64_def Let_def l u r) simp
  then show ?thesis by (simp add: js_mul_def)
qed

lemma even_split_100_by_2:
  "map breakpoints
     (audioFiles (addEvenBreakpoints \<lparr> audioFiles = [track100], isSubmitting = False, draggedItem = None \<rparr>
        ''file-2'' 2 \<lparr> audioFiles = [track100], isSubmitting = False, draggedItem = None \<rparr>))
   = [[4691249611844267 / 2 ^ 47, 4691249611844267 / 2 ^ 46]]"
proof -
  have f: "find (\<lambda>file. id_file file = ''file-2'')
             (audioFiles \<lparr> audioFiles = [track100], isSubmitting = False, draggedItem = None \<rparr>)
           = Some track100"
    by (simp add: track100_def newTrack_def)
  have d: "duration track100 = 100" "id_file track100 = ''file-2''"
    by (simp_all add: track100_def newTrack_def)
  have "map (\<lambda>k. js_mul (js_div (duration track100) (of_int (2 + 1))) (of_int k)) [1..2]
          = [js_mul (js_div 100 3) 1, js_mul (js_div 100 3) 2]"
    by (simp add: d upto_rec1)
  also have "\<dots> = [4691249611844267 / 2 ^ 47, 4691249611844267 / 2 ^ 46]"
    by (simp only: js_div_100_3 js_mul_third_1 js_mul_third_2)
  finally have "map (\<lambda>k. js_mul (js_div (duration track100) (of_int (2 + 1))) (of_int k)) [1..2]
          = [4691249611844267 / 2 ^ 47, 4691249611844267 / 2 ^ 46]" .
  then show ?thesis
    using addEvenBreakpoints_found [of 2, OF _ f] by (simp add: d)
qed

section \<open>Properties of drag reordering\<close>

lemma splice_remove_insert:
  assumes "dragged < length xs" and "index < length xs"
  defines "ys \<equiv> splice dragged 1 [] xs"
  defines "zs \<equiv> splice index 0 [xs ! dragged] ys"
  shows "mset zs = mset xs" and "zs ! index = xs ! dragged" and "splice index 1 [] zs = ys"
    and "length zs = length xs"
proof -
  have xs: "xs = take dragged xs @ xs ! dragged # drop (Suc dragged) xs"
    using assms(1) by (rule id_take_nth_drop)
  have ys: "ys = take dragged xs @ drop (Suc dragged) xs"
    by (simp add: ys_def splice_def)
  have zs: "zs = take index ys @ xs ! dragged # drop index ys"
    by (simp add: zs_def splice_def)
  have ly: "length ys = length xs - 1"
    using assms(1) by (simp add: ys) 
  then have iy: "index \<le> length ys" using assms(2) by simp
  have "mset zs = mset (take index ys) + mset (drop index ys) + {#xs ! dragged#}"
    by (simp add: zs)
  also have "\<dots> = mset ys + {#xs ! dragged#}"
    by (metis append_take_drop_id mset_append)
  also have "\<dots> = mset (take dragged xs @ xs ! dragged # drop (Suc dragged) xs)"
    by (simp add: ys)
  also have "\<dots> = mset xs" using xs by simp
  finally show "mset zs = mset xs" .
  show "zs ! index = xs ! dragged"
    using iy by (simp add: zs nth_append)
  show "splice index 1 [] zs = ys"
    using iy by (simp add: zs splice_def)
  show "length zs = length xs"
    using iy ly assms(1) by (simp add: zs)
qed

text \<open>
  Claim C6. With a dragged index and a target index inside the list,
  \<open>handleDragOver\<close> yields a list with the same tracks (as a multiset of whole
  records, hence of ids), the dragged track at the target index, and the other tracks
  in their old order: removing the moved track from the new list and from the old one
  leaves the same list.
\<close>

theorem C6_reorder_preserves_tracks:
  assumes "draggedItem s = Some dragged"
    and "dragged < length (audioFiles s)"
    and "index < length (audioFiles s)"
  shows "\<exists>s'. handleDragOver s index s = Some s'
           \<and> mset (audioFiles s') = mset (audioFiles s)
           \<and> mset (map id_file (audioFiles s')) = mset (map id_file (audioFiles s))
           \<and> length (audioFiles s') = length (audioFiles s)
           \<and> audioFiles s' ! index = audioFiles s ! dragged
           \<and> splice index 1 [] (audioFiles s') = splice dragged 1 [] (audioFiles s)"
proof (cases "dragged = index")
  case True
  then show ?thesis using assms by (simp add: handleDragOver_def)
next
  case False
  let ?zs = "splice index 0 [audioFiles s ! dragged] (splice dragged 1 [] (audioFiles s))"
  have h: "handleDragOver s index s = Some (s\<lparr>audioFiles := ?zs, draggedItem := Some index\<rparr>)"
    using False assms by (simp add: handleDragOver_def Let_def)
  note P = splice_remove_insert [OF assms(2) assms(3)]
  have "mset (map id_file ?zs) = image_mset id_file (mset ?zs)" by simp
  also have "\<dots> = image_mset id_file (mset (audioFiles s))" by (simp only: P(1))
  finally have ids: "mset (map id_file ?zs) = mset (map id_file (audioFiles s))" by simp
  show ?thesis
    unfolding h using P ids by simp
qed

text \<open>
  Claim C6 on three tracks: dragging the first one over the third gives the order
  second, third, first.
\<close>

theorem C6_reorder_preserves_tracks_witness:
  "map_option audioFiles (handleDragOver editor3 2 editor3) = Some [track100, track60, track120]
   \<and> map_option draggedItem (handleDragOver editor3 2 editor3) = Some (Some 2)"
proof -
  have h1: "draggedItem editor3 = Some 0" and h2: "0 < length (audioFiles editor3)"
    and h3: "2 < length (audioFiles editor3)"
    by (simp_all add: editor3_def)
  have e: "handleDragOver editor3 2 editor3 =
             Some \<lparr> audioFiles = [track100, track60, track120], isSubmitting = False,
                    draggedItem = Some 2 \<rparr>"
    by (simp add: handleDragOver_def editor3_def splice_def)
  from C6_reorder_preserves_tracks [OF h1 h2 h3]
  obtain s' where s': "handleDragOver editor3 2 editor3 = Some s'"
    and m: "mset (audioFiles s') = mset (audioFiles editor3)" by blast
  from s' e have "s' = \<lparr> audioFiles = [track100, track60, track120], isSubmitting = False,
                    draggedItem = Some 2 \<rparr>"
    by simp
  with s' show ?thesis by simp
qed

section \<open>Properties of saving and submitting\<close>

text \<open>
  Claim C4. If some track of the render is uploading, \<open>handleSubmit\<close> only shows the
  error "Please wait for all files to finish uploading": no request is added to the
  trace, neither to \<open>/api/upload\<close> nor to \<open>/video/process-and-store\<close>.
\<close>

theorem C4_submit_rejected_while_uploading:
  assumes "\<exists>f \<in> set (audioFiles snap). uploading f"
  shows "handleSubmit snap uploads process (s, tr) =
           (s\<lparr>isSubmitting := False\<rparr>,
            tr @ [Toast ''Error submitting project''
                    ''Please wait for all files to finish uploading'' True])"
proof -
  have "list_ex uploading (audioFiles snap)"
    using assms by (simp add: list_ex_iff)
  then show ?thesis
    by (simp add: handleSubmit_def submitFailed_def Let_def)
qed

text \<open>
  Claim C4 on a page whose first track is uploading: the only effect is the error
  notification.
\<close>

theorem C4_submit_rejected_while_uploading_witness:
  "handleSubmit editorBusy (\<lambda>fileId. uploadOk) processOk (editorBusy, []) =
     (editorBusy, [Toast ''Error submitting project''
                     ''Please wait for all files to finish uploading'' True])"
proof -
  have h: "\<exists>f \<in> set (audioFiles editorBusy). uploading f"
    by (simp add: editorBusy_def)
  have e: "editorBusy\<lparr>isSubmitting := False\<rparr> = editorBusy"
    by (simp add: editorBusy_def)
  show ?thesis
    using C4_submit_rejected_while_uploading [OF h, of "\<lambda>fileId. uploadOk" processOk editorBusy "[]"] e
    by simp
qed

lemma map_uploading_twice:
  "map (\<lambda>file. if id_file file = fileId then file\<lparr>uploading := b\<rparr> else file)
     (map (\<lambda>file. if id_file file = fileId then file\<lparr>uploading := a\<rparr> else file) prev)
   = map (\<lambda>file. if id_file file = fileId then file\<lparr>uploading := b\<rparr> else file) prev"
  by (induction prev) auto

lemma map_field_unchanged: "(\<And>f. g (u f) = g f) \<Longrightarrow> map g (map u xs) = map g xs"
  by (simp add: comp_def)

lemma saveAudioFile_failure:
  assumes "find (\<lambda>file. id_file file = fileId) (audioFiles snap) = Some audioFile"
    and "awaitUpload response = Inl message"
  shows "saveAudioFile snap fileId response (s, tr) =
     (s\<lparr>audioFiles :=
          map (\<lambda>file. if id_file file = fileId then file\<lparr>uploading := False\<rparr> else file) (audioFiles s)\<rparr>,
      tr @ [FetchUpload (file_blob audioFile) (fileName audioFile)
              (UploadMeta (fileName audioFile) (duration audioFile) (breakpoints audioFile)),
            Toast ''Upload failed''
              (''Failed to upload '' @ fileName audioFile @ ''. '' @ message) True])"
  using assms
  by (simp add: saveAudioFile_def saveAudioFile_begin_def saveAudioFile_resume_def
      saveFailed_def setAudioFiles_def map_uploading_twice)

text \<open>
  Claim C7. If the upload request of \<open>saveAudioFile\<close> fails (the request or its
  body rejects, or the answer has no \<open>success\<close>), the live list only changes in that
  the track gets \<open>uploading = false\<close>: \<open>uploaded\<close>, \<open>breakpoints\<close>, \<open>chunks\<close>,
  \<open>storageKey\<close> and \<open>storageUrl\<close> of every track are what they were, and the last
  effect is the "Upload failed" notification with the error message.
\<close>

theorem C7_failed_save_reverts:
  assumes "find (\<lambda>file. id_file file = fileId) (audioFiles snap) = Some audioFile"
    and "awaitUpload response = Inl message"
  shows "audioFiles (fst (saveAudioFile snap fileId response (s, tr))) =
           map (\<lambda>file. if id_file file = fileId then file\<lparr>uploading := False\<rparr> else file) (audioFiles s)
       \<and> (\<forall>f \<in> set (audioFiles (fst (saveAudioFile snap fileId response (s, tr)))).
             id_file f = fileId \<longrightarrow> \<not> uploading f)
       \<and> map uploaded (audioFiles (fst (saveAudioFile snap fileId response (s, tr)))) = map uploaded (audioFiles s)
       \<and> map breakpoints (audioFiles (fst (saveAudioFile snap fileId response (s, tr)))) = map breakpoints (audioFiles s)
       \<and> map chunks (audioFiles (fst (saveAudioFile snap fileId response (s, tr)))) = map chunks (audioFiles s)
       \<and> map storageKey (audioFiles (fst (saveAudioFile snap fileId response (s, tr)))) = map storageKey (audioFiles s)
       \<and> map storageUrl (audioFiles (fst (saveAudioFile snap fileId response (s, tr)))) = map storageUrl (audioFiles s)
       \<and> last (snd (saveAudioFile snap fileId response (s, tr))) =
           Toast ''Upload failed'' (''Failed to upload '' @ fileName audioFile @ ''. '' @ message) True"
proof -
  let ?u = "\<lambda>file. if id_file file = fileId then file\<lparr>uploading := False\<rparr> else file"
  let ?R = "saveAudioFile snap fileId response (s, tr)"
  have A: "audioFiles (fst ?R) = map ?u (audioFiles s)"
    by (simp add: saveAudioFile_failure [OF assms])
  have P: "id_file (?u x) = fileId \<longrightarrow> \<not> uploading (?u x)" for x
    by simp
  have B: "\<forall>f \<in> set (audioFiles (fst ?R)). id_file f = fileId \<longrightarrow> \<not> uploading f"
  proof (intro ballI)
    fix f
    assume "f \<in> set (audioFiles (fst ?R))"
    then obtain x where "f = ?u x"
      unfolding A by (auto simp only: set_map image_iff)
    then show "id_file f = fileId \<longrightarrow> \<not> uploading f"
      using P [of x] by (simp only:)
  qed
  have C: "map uploaded (audioFiles (fst ?R)) = map uploaded (audioFiles s)"
    unfolding A by (rule map_field_unchanged) simp
  have D: "map breakpoints (audioFiles (fst ?R)) = map breakpoints (audioFiles s)"
    unfolding A by (rule map_field_unchanged) simp
  have E: "map chunks (audioFiles (fst ?R)) = map chunks (audioFiles s)"
    unfolding A by (rule map_field_unchanged) simp
  have F: "map storageKey (audioFiles (fst ?R)) = map storageKey (audioFiles s)"
    unfolding A by (rule map_field_unchanged) simp
  have G: "map storageUrl (audioFiles (fst ?R)) = map storageUrl (audioFiles s)"
    unfolding A by (rule map_field_unchanged) simp
  have H: "last (snd ?R) =
           Toast ''Upload failed'' (''Failed to upload '' @ fileName audioFile @ ''. '' @ message) True"
    by (simp add: saveAudioFile_failure [OF assms])
  show ?thesis
    using A B C D E F G H by blast
qed

text \<open>
  Claim C7 for an answer \<open>{success: false, error: "No file provided"}\<close>: the page is
  back in its state before the save and the notification names the file and the error.
\<close>

theorem C7_failed_save_reverts_witness:
  "awaitUpload uploadRefused = Inl ''Failed to upload file: No file provided''
   \<and> fst (saveAudioFile editor120 ''file-1'' uploadRefused (editor120, [])) = editor120
   \<and> last (snd (saveAudioFile editor120 ''file-1'' uploadRefused (editor120, []))) =
       Toast ''Upload failed'' ''Failed to upload a.mp3. Failed to upload file: No file provided'' True"
proof -
  have h1: "find (\<lambda>file. id_file file = ''file-1'') (audioFiles editor120) = Some track120"
    by (simp add: editor120_def track120_def newTrack_def)
  have h2: "awaitUpload uploadRefused = Inl ''Failed to upload file: No file provided''"
    by (simp add: awaitUpload_def uploadRefused_def showOpt_def)
  note T = C7_failed_save_reverts [OF h1 h2, of editor120 "[]"]
  have a: "audioFiles (fst (saveAudioFile editor120 ''file-1'' uploadRefused (editor120, [])))
             = audioFiles editor120"
    using T [THEN conjunct1] by (simp add: editor120_def track120_def newTrack_def)
  have b: "fst (saveAudioFile editor120 ''file-1'' uploadRefused (editor120, [])) = editor120"
    using a h1
    by (simp add: saveAudioFile_def saveAudioFile_begin_def saveAudioFile_resume_def h2
        saveFailed_def setAudioFiles_def)
  have c: "last (snd (saveAudioFile editor120 ''file-1'' uploadRefused (editor120, []))) =
       Toast ''Upload failed'' ''Failed to upload a.mp3. Failed to upload file: No file provided'' True"
    using T by (simp add: track120_def newTrack_def)
  show ?thesis using h2 b c by simp
qed










section \<open>Properties of the upload route\<close>

lemma storeMetadata_never_throws: "\<exists>out'. storeMetadata env breakpointsJson out = Inr out'"
  by (simp add: storeMetadata_def split: option.split sum.split prod.split)

lemma storeMetadata_logs_failure:
  assumes "json \<noteq> []"
    and "\<not> jsonParses env json \<or> (\<exists>m. uploadMetadata env = Rejects m)
         \<or> (\<exists>e. uploadMetadata env = Resolves (Inl e))"
  shows "\<exists>out'. storeMetadata env (Some json) out = Inr out'
           \<and> (last out' = ConsoleError ''Failed to process or upload metadata, but continuing:''
              \<or> last out' = ConsoleWarn ''Failed to upload metadata, but continuing with main file upload:'')"
proof (cases "jsonParses env json")
  case False
  then show ?thesis using assms(1) by (simp add: storeMetadata_def metadataTry_def)
next
  case True
  with assms(2) consider m where "uploadMetadata env = Rejects m"
    | e where "uploadMetadata env = Resolves (Inl e)" by blast
  then show ?thesis
  proof cases
    case 1
    then show ?thesis using True assms(1) by (simp add: storeMetadata_def metadataTry_def)
  next
    case 2
    then show ?thesis using True assms(1) by (simp add: storeMetadata_def metadataTry_def)
  qed
qed

lemma POST_reaches_upload:
  assumes "supabaseUrl env \<noteq> []" and "supabaseAnonKey env \<noteq> []"
    and "formData env = Resolves (FormFields (Some audioFile) breakpointsJson)"
    and "arrayBuffer env = Resolves bytes"
    and "listBuckets env = Resolves (Inr buckets)"
    and "''audio-files'' \<in> set buckets \<or> createBucket env = Resolves (Inr ())"
  shows "POST env =
     uploadAndAnswer env
       (''audio/original-'' @ randomHash env @ ''.'' @ last (split_on CHR ''.'' (file_name audioFile)))
       breakpointsJson []"
proof (cases "''audio-files'' \<in> set buckets")
  case True
  then have "list_ex (\<lambda>bucket. bucket = ''audio-files'') buckets"
    by (simp only: list_ex_iff) blast
  then show ?thesis using assms(1-5) by (simp add: POST_def Let_def)
next
  case False
  then have n: "\<not> list_ex (\<lambda>bucket. bucket = ''audio-files'') buckets"
    by (simp only: list_ex_iff) blast
  from False assms(6) have "createBucket env = Resolves (Inr ())" by blast
  then show ?thesis using n assms(1-5) by (simp add: POST_def Let_def)
qed

text \<open>
  Claim C9. When the route has stored the audio file and has its public URL, and the
  metadata step fails (\<open>JSON.parse\<close> throws, the metadata upload rejects, or it answers
  with an error), the response is still \<open>{success: true, key, url}\<close> with status 200,
  and the last console line is the warning or error about the metadata.
\<close>

theorem C9_metadata_failure_swallowed:
  assumes "supabaseUrl env \<noteq> []" and "supabaseAnonKey env \<noteq> []"
    and "formData env = Resolves (FormFields (Some audioFile) (Some json))"
    and "json \<noteq> []"
    and "arrayBuffer env = Resolves bytes"
    and "listBuckets env = Resolves (Inr buckets)"
    and "''audio-files'' \<in> set buckets \<or> createBucket env = Resolves (Inr ())"
    and "uploadFile env = Resolves (Inr ())"
    and "publicUrl env = Some purl" and "purl \<noteq> []"
    and "\<not> jsonParses env json \<or> (\<exists>m. uploadMetadata env = Rejects m)
         \<or> (\<exists>e. uploadMetadata env = Resolves (Inl e))"
  shows "fst (POST env) =
           NextResponse
             (Success (''audio/original-'' @ randomHash env @ ''.''
                         @ last (split_on CHR ''.'' (file_name audioFile))) purl) 200
       \<and> (last (snd (POST env)) = ConsoleError ''Failed to process or upload metadata, but continuing:''
          \<or> last (snd (POST env)) = ConsoleWarn ''Failed to upload metadata, but continuing with main file upload:'')"
proof -
  let ?key = "''audio/original-'' @ randomHash env @ ''.'' @ last (split_on CHR ''.'' (file_name audioFile))"
  let ?out1 = "[ConsoleLog ''Uploading audio file:'', StorageUpload ?key]"
  have p: "POST env = uploadAndAnswer env ?key (Some json) []"
    using POST_reaches_upload [OF assms(1,2,3,5,6,7)] .
  from storeMetadata_logs_failure [OF assms(4) assms(11), of ?out1]
  obtain out' where m: "storeMetadata env (Some json) ?out1 = Inr out'"
    and l: "last out' = ConsoleError ''Failed to process or upload metadata, but continuing:''
              \<or> last out' = ConsoleWarn ''Failed to upload metadata, but continuing with main file upload:''"
    by blast
  have "uploadAndAnswer env ?key (Some json) [] = (NextResponse (Success ?key purl) 200, out')"
    using assms(8,9,10) m by (simp add: uploadAndAnswer_def Let_def)
  with p l show ?thesis by simp
qed

text \<open>
  Claim C9 for a \<open>breakpoints\<close> field that is no JSON: the answer is the success with
  the key and URL of the audio file, after one logged error.
\<close>

theorem C9_metadata_failure_swallowed_witness:
  "POST envBadMetadata =
     (NextResponse (Success ''audio/original-h.mp3'' ''https://storage.example/audio/original-h.mp3'') 200,
      [ConsoleLog ''Uploading audio file:'', StorageUpload ''audio/original-h.mp3'',
       ConsoleError ''Failed to process or upload metadata, but continuing:''])"
proof -
  have h: "supabaseUrl envBadMetadata \<noteq> []" "supabaseAnonKey envBadMetadata \<noteq> []"
    "formData envBadMetadata = Resolves (FormFields (Some (File ''a.mp3'' 1024 ''audio/mpeg'')) (Some ''{not json''))"
    "''{not json'' \<noteq> []"
    "arrayBuffer envBadMetadata = Resolves ''bytes''"
    "listBuckets envBadMetadata = Resolves (Inr [''audio-files''])"
    "''audio-files'' \<in> set [''audio-files''] \<or> createBucket envBadMetadata = Resolves (Inr ())"
    "uploadFile envBadMetadata = Resolves (Inr ())"
    "publicUrl envBadMetadata = Some ''https://storage.example/audio/original-h.mp3''"
    "''https://storage.example/audio/original-h.mp3'' \<noteq> []"
    "\<not> jsonParses envBadMetadata ''{not json'' \<or> (\<exists>m. uploadMetadata envBadMetadata = Rejects m)
         \<or> (\<exists>e. uploadMetadata envBadMetadata = Resolves (Inl e))"
    by (simp_all add: envBadMetadata_def)
  note T = C9_metadata_failure_swallowed [OF h]
  have k: "''audio/original-'' @ randomHash envBadMetadata @ ''.''
             @ last (split_on CHR ''.'' (file_name (File ''a.mp3'' 1024 ''audio/mpeg'')))
           = ''audio/original-h.mp3''"
    by (simp add: envBadMetadata_def)
  have s: "snd (POST envBadMetadata) =
      [ConsoleLog ''Uploading audio file:'', StorageUpload ''audio/original-h.mp3'',
       ConsoleError ''Failed to process or upload metadata, but continuing:'']"
    by (simp add: POST_def uploadAndAnswer_def storeMetadata_def metadataTry_def envBadMetadata_def
        Let_def)
  have f: "fst (POST envBadMetadata) =
     NextResponse (Success ''audio/original-h.mp3'' ''https://storage.example/audio/original-h.mp3'') 200"
    using T [THEN conjunct1] k by simp
  show ?thesis using f s by (simp add: prod_eq_iff)
qed




section \<open>Submitting after the uploads\<close>




end
